theory Spec2Isabelle
  imports Main "HOL-Library.Word"
begin

unbundle bit_operations_syntax

section \<open>The Unix V4 filesystem simulation\<close>

text \<open>
  A shallow embedding of the filesystem class of the simulation: the classes
  \<^verbatim>\<open>Inode\<close>, \<^verbatim>\<open>DirectoryEntry\<close> and \<^verbatim>\<open>UnixFilesystem\<close>.

  \<^item> JavaScript's bitwise operators work on 32-bit integers, so a mode is a \<open>32 word\<close>.
  \<^item> A JavaScript string is a \<open>string\<close>; its characters stand for the code units that
    \<^verbatim>\<open>length\<close>, \<^verbatim>\<open>substring\<close>, \<^verbatim>\<open>split\<close> and \<^verbatim>\<open>===\<close> work on.
  \<^item> Every \<^verbatim>\<open>Inode\<close> object is made by \<^verbatim>\<open>_allocInode\<close>, which stores it in the table
    \<^verbatim>\<open>this.inodes\<close> under its own fresh number. The table is therefore the store of the
    objects, and a reference to an \<^verbatim>\<open>Inode\<close> object is the key it is stored under
    (a number below \<^verbatim>\<open>nextInum\<close>, since the object was allocated earlier); a value that
    is an \<^verbatim>\<open>Inode\<close>, \<^verbatim>\<open>null\<close> or \<^verbatim>\<open>undefined\<close> is a \<open>nat option\<close>.
  \<^item> A property access on \<^verbatim>\<open>null\<close> or \<^verbatim>\<open>undefined\<close> raises \<^verbatim>\<open>TypeError\<close>; a function
    that can raise returns \<open>error + 'a\<close>, and one that also mutates returns the state it
    leaves behind, also when it raises.
  \<^item> \<^verbatim>\<open>Date.now()\<close> is read from the environment: \<open>clk n\<close> is the pair of readings taken
    while inode number \<open>n\<close> is constructed, and \<^verbatim>\<open>write\<close> takes its one reading as an
    argument.
  \<^item> The methods \<^verbatim>\<open>_allocInode\<close>, \<^verbatim>\<open>_mkdir\<close>, \<^verbatim>\<open>_mkdev\<close>, \<^verbatim>\<open>_mkfile\<close>, \<^verbatim>\<open>_lookup\<close> and
    \<^verbatim>\<open>_initializeFilesystem\<close> lose their leading underscore, and \<^verbatim>\<open>write\<close> is
    \<open>write_fs\<close>, since \<open>write\<close> is a keyword.
\<close>

subsection \<open>Mode bits\<close>

type_synonym mode = "32 word"

definition IALLOC :: mode where "IALLOC = 32768"
definition IFMT :: mode where "IFMT = 24576"
definition IFDIR :: mode where "IFDIR = 16384"
definition IFCHR :: mode where "IFCHR = 8192"
definition IREAD :: mode where "IREAD = 256"
definition IWRITE :: mode where "IWRITE = 128"
definition IEXEC :: mode where "IEXEC = 64"

text \<open>The permission literals of the source: \<^verbatim>\<open>0o755\<close>, \<^verbatim>\<open>0o666\<close>, \<^verbatim>\<open>0o640\<close>, \<^verbatim>\<open>0o644\<close>.\<close>

definition o755 :: mode where "o755 = 493"
definition o666 :: mode where "o666 = 438"
definition o640 :: mode where "o640 = 416"
definition o644 :: mode where "o644 = 420"

subsection \<open>Inodes and directory entries\<close>

record DirectoryEntry =
  inum :: nat
  name :: string

definition new_DirectoryEntry :: "nat \<Rightarrow> string \<Rightarrow> DirectoryEntry" where
  "new_DirectoryEntry n nm = \<lparr>inum = n, name = take 14 nm\<rparr>"

record Inode =
  i_number :: nat
  i_mode :: mode
  i_nlink :: nat
  i_uid :: nat
  i_gid :: nat
  i_size :: nat
  i_atime :: int
  i_mtime :: int
  i_data :: "string option"
  i_entries :: "DirectoryEntry list option"

definition new_Inode :: "nat \<Rightarrow> mode \<Rightarrow> int \<times> int \<Rightarrow> Inode" where
  "new_Inode n m t =
     \<lparr>i_number = n, i_mode = m, i_nlink = 1, i_uid = 0, i_gid = 0, i_size = 0,
      i_atime = fst t, i_mtime = snd t, i_data = None, i_entries = None\<rparr>"

definition isDirectory :: "Inode \<Rightarrow> bool" where
  "isDirectory i = (i_mode i AND IFMT = IFDIR)"

definition isRegular :: "Inode \<Rightarrow> bool" where
  "isRegular i = (i_mode i AND IFMT = 0)"

definition isCharDevice :: "Inode \<Rightarrow> bool" where
  "isCharDevice i = (i_mode i AND IFMT = IFCHR)"

definition isExecutable :: "Inode \<Rightarrow> bool" where
  "isExecutable i = (i_mode i AND IEXEC \<noteq> 0)"

subsection \<open>The filesystem object\<close>

record UnixFilesystem =
  inodes :: "nat \<rightharpoonup> Inode"
  nextInum :: nat
  rootInum :: nat

datatype error = TypeError

type_synonym ref = "nat option"

type_synonym 'a result = "(error + 'a) \<times> UnixFilesystem"

text \<open>\<^verbatim>\<open>this.inodes.get(k)\<close>: the object stored under \<open>k\<close>, or \<^verbatim>\<open>undefined\<close>.\<close>

definition inodes_get :: "UnixFilesystem \<Rightarrow> nat \<Rightarrow> ref" where
  "inodes_get fs k = (if inodes fs k = None then None else Some k)"

text \<open>The object behind a reference value; nothing behind \<^verbatim>\<open>null\<close> and \<^verbatim>\<open>undefined\<close>.\<close>

definition obj :: "UnixFilesystem \<Rightarrow> ref \<Rightarrow> Inode option" where
  "obj fs r = (case r of None \<Rightarrow> None | Some k \<Rightarrow> inodes fs k)"

definition allocInode :: "(nat \<Rightarrow> int \<times> int) \<Rightarrow> mode \<Rightarrow> UnixFilesystem \<Rightarrow> nat \<times> UnixFilesystem" where
  "allocInode clk m fs =
     (let n = nextInum fs;
          inode = new_Inode n (m OR IALLOC) (clk n)
      in (n, fs\<lparr>inodes := (inodes fs)(n \<mapsto> inode), nextInum := nextInum fs + 1\<rparr>))"

text \<open>The assignment \<^verbatim>\<open>dir.i_entries = [...]\<close> to a freshly allocated object.\<close>

definition set_entries :: "nat \<Rightarrow> DirectoryEntry list \<Rightarrow> UnixFilesystem \<Rightarrow> UnixFilesystem" where
  "set_entries k es fs =
     (case inodes fs k of
        None \<Rightarrow> fs
      | Some i \<Rightarrow> fs\<lparr>inodes := (inodes fs)(k \<mapsto> i\<lparr>i_entries := Some es\<rparr>)\<rparr>)"

text \<open>
  \<^verbatim>\<open>parent.i_entries.push(new DirectoryEntry(n, name))\<close>; raises when \<^verbatim>\<open>parent\<close> or
  its \<^verbatim>\<open>i_entries\<close> is \<^verbatim>\<open>null\<close>.
\<close>

definition push_entry :: "ref \<Rightarrow> nat \<Rightarrow> string \<Rightarrow> UnixFilesystem \<Rightarrow> unit result" where
  "push_entry parent n nm fs =
     (case parent of
        None \<Rightarrow> (Inl TypeError, fs)
      | Some p \<Rightarrow>
          (case inodes fs p of
             None \<Rightarrow> (Inl TypeError, fs)
           | Some pi \<Rightarrow>
               (case i_entries pi of
                  None \<Rightarrow> (Inl TypeError, fs)
                | Some es \<Rightarrow>
                    (Inr (),
                     fs\<lparr>inodes := (inodes fs)
                          (p \<mapsto> pi\<lparr>i_entries := Some (es @ [new_DirectoryEntry n nm])\<rparr>)\<rparr>))))"

definition mkdir :: "(nat \<Rightarrow> int \<times> int) \<Rightarrow> ref \<Rightarrow> string \<Rightarrow> UnixFilesystem \<Rightarrow> nat result" where
  "mkdir clk parent nm fs =
     (let (dir, fs1) = allocInode clk (IFDIR OR o755) fs
      in case obj fs1 parent of
           None \<Rightarrow> (Inl TypeError, fs1)
         | Some pi \<Rightarrow>
             (let fs2 = set_entries dir
                          [new_DirectoryEntry dir ''.'',
                           new_DirectoryEntry (i_number pi) ''..''] fs1
              in case push_entry parent dir nm fs2 of
                   (Inl e, fs3) \<Rightarrow> (Inl e, fs3)
                 | (Inr u, fs3) \<Rightarrow> (Inr dir, fs3)))"

definition mkdev :: "(nat \<Rightarrow> int \<times> int) \<Rightarrow> ref \<Rightarrow> string \<Rightarrow> mode \<Rightarrow> UnixFilesystem \<Rightarrow> nat result" where
  "mkdev clk parent nm m fs =
     (let (dev, fs1) = allocInode clk m fs
      in case push_entry parent dev nm fs1 of
           (Inl e, fs2) \<Rightarrow> (Inl e, fs2)
         | (Inr u, fs2) \<Rightarrow> (Inr dev, fs2))"

text \<open>The two assignments \<^verbatim>\<open>file.i_data = content; file.i_size = content.length\<close>.\<close>

definition set_content :: "nat \<Rightarrow> string \<Rightarrow> UnixFilesystem \<Rightarrow> UnixFilesystem" where
  "set_content k content fs =
     (case inodes fs k of
        None \<Rightarrow> fs
      | Some i \<Rightarrow>
          fs\<lparr>inodes := (inodes fs)(k \<mapsto> i\<lparr>i_data := Some content, i_size := length content\<rparr>)\<rparr>)"

text \<open>The mode of \<^verbatim>\<open>_mkfile\<close> is optional and defaults to \<^verbatim>\<open>0o644\<close>.\<close>

definition mkfile :: "(nat \<Rightarrow> int \<times> int) \<Rightarrow> ref \<Rightarrow> string \<Rightarrow> string \<Rightarrow> mode option \<Rightarrow> UnixFilesystem \<Rightarrow> nat result" where
  "mkfile clk parent nm content mo fs =
     (let m = (case mo of None \<Rightarrow> o644 | Some m' \<Rightarrow> m');
          (file, fs1) = allocInode clk m fs;
          fs2 = set_content file content fs1
      in case push_entry parent file nm fs2 of
           (Inl e, fs3) \<Rightarrow> (Inl e, fs3)
         | (Inr u, fs3) \<Rightarrow> (Inr file, fs3))"

text \<open>The loop of \<^verbatim>\<open>_lookup\<close> over the entries: the first entry with that name decides.\<close>

fun lookup_loop :: "UnixFilesystem \<Rightarrow> DirectoryEntry list \<Rightarrow> string \<Rightarrow> ref" where
  "lookup_loop fs [] nm = None"
| "lookup_loop fs (e # es) nm =
     (if name e = nm then inodes_get fs (inum e) else lookup_loop fs es nm)"

definition lookup :: "UnixFilesystem \<Rightarrow> ref \<Rightarrow> string \<Rightarrow> error + ref" where
  "lookup fs dir nm =
     (case obj fs dir of
        None \<Rightarrow> Inl TypeError
      | Some d \<Rightarrow>
          if \<not> isDirectory d then Inr None
          else (case i_entries d of
                  None \<Rightarrow> Inl TypeError
                | Some es \<Rightarrow> Inr (lookup_loop fs es nm)))"


subsection \<open>Path resolution\<close>

text \<open>\<^verbatim>\<open>String.prototype.split\<close> with a separator of one character.\<close>

fun str_split :: "char \<Rightarrow> string \<Rightarrow> string list" where
  "str_split c [] = [[]]"
| "str_split c (x # xs) =
     (if x = c then [] # str_split c xs
      else (case str_split c xs of [] \<Rightarrow> [[x]] | w # ws \<Rightarrow> (x # w) # ws))"

text \<open>\<^verbatim>\<open>path.split('/').filter(p => p !== '')\<close>\<close>

definition path_parts :: "string \<Rightarrow> string list" where
  "path_parts path = filter (\<lambda>p. p \<noteq> []) (str_split CHR ''/'' path)"

text \<open>The loop of \<^verbatim>\<open>namei\<close> over the parts, from the inode \<open>current\<close>.\<close>

fun namei_loop :: "UnixFilesystem \<Rightarrow> ref \<Rightarrow> string list \<Rightarrow> error + ref" where
  "namei_loop fs current [] = Inr current"
| "namei_loop fs current (part # parts) =
     (case obj fs current of
        None \<Rightarrow> Inl TypeError
      | Some c \<Rightarrow>
          if \<not> isDirectory c then Inr None
          else (case lookup fs current part of
                  Inl e \<Rightarrow> Inl e
                | Inr None \<Rightarrow> Inr None
                | Inr (Some k) \<Rightarrow> namei_loop fs (Some k) parts))"

text \<open>The path argument is a string, \<^verbatim>\<open>null\<close> or \<^verbatim>\<open>undefined\<close>.\<close>

definition namei :: "UnixFilesystem \<Rightarrow> string option \<Rightarrow> error + ref" where
  "namei fs path =
     (case path of
        None \<Rightarrow> Inr None
      | Some p \<Rightarrow>
          if p = [] then Inr None
          else (let current = inodes_get fs (rootInum fs)
                in if p = ''/'' then Inr current
                   else namei_loop fs current (path_parts p)))"

subsection \<open>The exposed operations\<close>

text \<open>An element \<^verbatim>\<open>{name, inode}\<close> of the result of \<^verbatim>\<open>readdir\<close> is a pair.\<close>

definition readdir :: "UnixFilesystem \<Rightarrow> string option \<Rightarrow> error + (string \<times> ref) list option" where
  "readdir fs path =
     (case namei fs path of
        Inl e \<Rightarrow> Inl e
      | Inr r \<Rightarrow>
          (case obj fs r of
             None \<Rightarrow> Inr None
           | Some i \<Rightarrow>
               if \<not> isDirectory i then Inr None
               else (case i_entries i of
                       None \<Rightarrow> Inl TypeError
                     | Some es \<Rightarrow>
                         Inr (Some (map (\<lambda>e. (name e, inodes_get fs (inum e))) es)))))"

definition read :: "UnixFilesystem \<Rightarrow> string option \<Rightarrow> error + string option" where
  "read fs path =
     (case namei fs path of
        Inl e \<Rightarrow> Inl e
      | Inr r \<Rightarrow>
          (case obj fs r of
             None \<Rightarrow> Inr None
           | Some i \<Rightarrow> if isDirectory i then Inr None else Inr (i_data i)))"

text \<open>The content is a string; \<open>now\<close> is the reading of \<^verbatim>\<open>Date.now()\<close>.\<close>

definition write_fs :: "UnixFilesystem \<Rightarrow> string option \<Rightarrow> string \<Rightarrow> int \<Rightarrow> bool result" where
  "write_fs fs path content now =
     (case namei fs path of
        Inl e \<Rightarrow> (Inl e, fs)
      | Inr r \<Rightarrow>
          (case r of
             None \<Rightarrow> (Inr False, fs)
           | Some k \<Rightarrow>
               (case inodes fs k of
                  None \<Rightarrow> (Inr False, fs)
                | Some i \<Rightarrow>
                    if isDirectory i then (Inr False, fs)
                    else (Inr True,
                          fs\<lparr>inodes := (inodes fs)
                               (k \<mapsto> i\<lparr>i_data := Some content, i_size := length content,
                                       i_mtime := now\<rparr>)\<rparr>))))"

definition stat :: "UnixFilesystem \<Rightarrow> string option \<Rightarrow> error + ref" where
  "stat fs path = namei fs path"

subsection \<open>Bootstrap\<close>

text \<open>Sequencing of two statements: a raised error ends the sequence.\<close>

definition andThen ::
  "(UnixFilesystem \<Rightarrow> 'a result) \<Rightarrow> ('a \<Rightarrow> UnixFilesystem \<Rightarrow> 'b result) \<Rightarrow> UnixFilesystem \<Rightarrow> 'b result" where
  "andThen m f fs = (case m fs of (Inl e, fs') \<Rightarrow> (Inl e, fs') | (Inr a, fs') \<Rightarrow> f a fs')"

definition initializeFilesystem :: "(nat \<Rightarrow> int \<times> int) \<Rightarrow> UnixFilesystem \<Rightarrow> unit result" where
  "initializeFilesystem clk fs0 =
     (let (root, fs1) = allocInode clk (IFDIR OR o755) fs0;
          fs2 = set_entries root
                  [new_DirectoryEntry root ''.'', new_DirectoryEntry root ''..''] fs1
      in (andThen (mkdir clk (Some root) ''bin'') (\<lambda>_.
          andThen (mkdir clk (Some root) ''dev'') (\<lambda>_.
          andThen (mkdir clk (Some root) ''etc'') (\<lambda>_.
          andThen (mkdir clk (Some root) ''usr'') (\<lambda>_.
          andThen (mkdir clk (Some root) ''tmp'') (\<lambda>_.
          andThen (\<lambda>fs. (lookup fs (Some root) ''usr'', fs)) (\<lambda>usr.
          andThen (mkdir clk usr ''games'') (\<lambda>_.
          andThen (mkdir clk usr ''lib'') (\<lambda>_.
          andThen (mkdir clk usr ''bin'') (\<lambda>_.
          andThen (mkdir clk usr ''sys'') (\<lambda>_.
          andThen (\<lambda>fs. (lookup fs (Some root) ''dev'', fs)) (\<lambda>dev.
          andThen (mkdev clk dev ''tty'' (IFCHR OR o666)) (\<lambda>_.
          andThen (mkdev clk dev ''null'' (IFCHR OR o666)) (\<lambda>_.
          andThen (mkdev clk dev ''mem'' (IFCHR OR o640)) (\<lambda>_.
          andThen (\<lambda>fs. (lookup fs (Some root) ''etc'', fs)) (\<lambda>etc.
          andThen (mkfile clk etc ''passwd''
                     (''root::0:0::/:\<newline>'' @ ''daemon::1:1::/:\<newline>'' @
                      ''bin::2:2::/bin:\<newline>'') None) (\<lambda>_.
          andThen (mkfile clk etc ''motd''
                     (''Unix Fourth Edition\<newline>'' @ ''Bell Telephone Laboratories\<newline>'' @
                      ''1973\<newline>'') None) (\<lambda>_.
          andThen (\<lambda>fs. (lookup fs usr ''games'', fs)) (\<lambda>games.
          andThen (mkfile clk games ''moo'' ''[binary: 624 bytes]'' (Some o755)) (\<lambda>_.
          andThen (mkfile clk games ''bj'' ''[binary: 1562 bytes]'' (Some o755)) (\<lambda>_.
          andThen (mkfile clk games ''ttt'' ''[binary: 2192 bytes]'' (Some o755)) (\<lambda>_.
          andThen (mkfile clk games ''ttt.k'' [] (Some o644)) (\<lambda>_.
          andThen (mkfile clk games ''cubic'' ''[binary: 2468 bytes]'' (Some o755)) (\<lambda>_.
          andThen (mkfile clk games ''wump'' ''[binary: 5386 bytes]'' (Some o755)) (\<lambda>_.
          andThen (mkfile clk games ''chess'' ''[binary: 14310 bytes]'' (Some o755)) (\<lambda>_.
          (\<lambda>fs. (Inr (), fs))))))))))))))))))))))))))))
         fs2)"

text \<open>
  The constructor: an empty table, \<^verbatim>\<open>nextInum = 1\<close>, \<^verbatim>\<open>rootInum = 1\<close>, then the
  bootstrap. An error raised by the bootstrap leaves no filesystem object.
\<close>

definition new_UnixFilesystem :: "(nat \<Rightarrow> int \<times> int) \<Rightarrow> error + UnixFilesystem" where
  "new_UnixFilesystem clk =
     (case initializeFilesystem clk \<lparr>inodes = Map.empty, nextInum = 1, rootInum = 1\<rparr> of
        (Inl e, fs) \<Rightarrow> Inl e
      | (Inr u, fs) \<Rightarrow> Inr fs)"


subsection \<open>The bootstrapped tree and the reachable states\<close>

text \<open>
  The table that the constructor builds, written out: the directories \<open>1\<close> to \<open>10\<close>,
  the character devices \<open>11\<close> to \<open>13\<close> and the regular files \<open>14\<close> to \<open>22\<close>. Lemma
  \<open>new_UnixFilesystem_booted\<close> below proves that the constructor returns \<open>booted clk\<close>.
\<close>

definition booted_inodes :: "(nat \<Rightarrow> int \<times> int) \<Rightarrow> (nat \<times> Inode) list" where
  "booted_inodes clk =
     [(1, (new_Inode 1 (IFDIR OR o755 OR IALLOC) (clk 1))
         \<lparr>i_entries := Some
          [\<lparr>inum = 1, name = ''.''\<rparr>,
           \<lparr>inum = 1, name = ''..''\<rparr>,
           \<lparr>inum = 2, name = ''bin''\<rparr>,
           \<lparr>inum = 3, name = ''dev''\<rparr>,
           \<lparr>inum = 4, name = ''etc''\<rparr>,
           \<lparr>inum = 5, name = ''usr''\<rparr>,
           \<lparr>inum = 6, name = ''tmp''\<rparr>]\<rparr>),
      (2, (new_Inode 2 (IFDIR OR o755 OR IALLOC) (clk 2))
         \<lparr>i_entries := Some
          [\<lparr>inum = 2, name = ''.''\<rparr>,
           \<lparr>inum = 1, name = ''..''\<rparr>]\<rparr>),
      (3, (new_Inode 3 (IFDIR OR o755 OR IALLOC) (clk 3))
         \<lparr>i_entries := Some
          [\<lparr>inum = 3, name = ''.''\<rparr>,
           \<lparr>inum = 1, name = ''..''\<rparr>,
           \<lparr>inum = 11, name = ''tty''\<rparr>,
           \<lparr>inum = 12, name = ''null''\<rparr>,
           \<lparr>inum = 13, name = ''mem''\<rparr>]\<rparr>),
      (4, (new_Inode 4 (IFDIR OR o755 OR IALLOC) (clk 4))
         \<lparr>i_entries := Some
          [\<lparr>inum = 4, name = ''.''\<rparr>,
           \<lparr>inum = 1, name = ''..''\<rparr>,
           \<lparr>inum = 14, name = ''passwd''\<rparr>,
           \<lparr>inum = 15, name = ''motd''\<rparr>]\<rparr>),
      (5, (new_Inode 5 (IFDIR OR o755 OR IALLOC) (clk 5))
         \<lparr>i_entries := Some
          [\<lparr>inum = 5, name = ''.''\<rparr>,
           \<lparr>inum = 1, name = ''..''\<rparr>,
           \<lparr>inum = 7, name = ''games''\<rparr>,
           \<lparr>inum = 8, name = ''lib''\<rparr>,
           \<lparr>inum = 9, name = ''bin''\<rparr>,
           \<lparr>inum = 10, name = ''sys''\<rparr>]\<rparr>),
      (6, (new_Inode 6 (IFDIR OR o755 OR IALLOC) (clk 6))
         \<lparr>i_entries := Some
          [\<lparr>inum = 6, name = ''.''\<rparr>,
           \<lparr>inum = 1, name = ''..''\<rparr>]\<rparr>),
      (7, (new_Inode 7 (IFDIR OR o755 OR IALLOC) (clk 7))
         \<lparr>i_entries := Some
          [\<lparr>inum = 7, name = ''.''\<rparr>,
           \<lparr>inum = 5, name = ''..''\<rparr>,
           \<lparr>inum = 16, name = ''moo''\<rparr>,
           \<lparr>inum = 17, name = ''bj''\<rparr>,
           \<lparr>inum = 18, name = ''ttt''\<rparr>,
           \<lparr>inum = 19, name = ''ttt.k''\<rparr>,
           \<lparr>inum = 20, name = ''cubic''\<rparr>,
           \<lparr>inum = 21, name = ''wump''\<rparr>,
           \<lparr>inum = 22, name = ''chess''\<rparr>]\<rparr>),
      (8, (new_Inode 8 (IFDIR OR o755 OR IALLOC) (clk 8))
         \<lparr>i_entries := Some
          [\<lparr>inum = 8, name = ''.''\<rparr>,
           \<lparr>inum = 5, name = ''..''\<rparr>]\<rparr>),
      (9, (new_Inode 9 (IFDIR OR o755 OR IALLOC) (clk 9))
         \<lparr>i_entries := Some
          [\<lparr>inum = 9, name = ''.''\<rparr>,
           \<lparr>inum = 5, name = ''..''\<rparr>]\<rparr>),
      (10, (new_Inode 10 (IFDIR OR o755 OR IALLOC) (clk 10))
         \<lparr>i_entries := Some
          [\<lparr>inum = 10, name = ''.''\<rparr>,
           \<lparr>inum = 5, name = ''..''\<rparr>]\<rparr>),
      (11, new_Inode 11 (IFCHR OR o666 OR IALLOC) (clk 11)),
      (12, new_Inode 12 (IFCHR OR o666 OR IALLOC) (clk 12)),
      (13, new_Inode 13 (IFCHR OR o640 OR IALLOC) (clk 13)),
      (14, (new_Inode 14 (o644 OR IALLOC) (clk 14))
         \<lparr>i_data := Some ''root::0:0::/:\<newline>daemon::1:1::/:\<newline>bin::2:2::/bin:\<newline>'', i_size := 46\<rparr>),
      (15, (new_Inode 15 (o644 OR IALLOC) (clk 15))
         \<lparr>i_data := Some ''Unix Fourth Edition\<newline>Bell Telephone Laboratories\<newline>1973\<newline>'', i_size := 53\<rparr>),
      (16, (new_Inode 16 (o755 OR IALLOC) (clk 16))
         \<lparr>i_data := Some ''[binary: 624 bytes]'', i_size := 19\<rparr>),
      (17, (new_Inode 17 (o755 OR IALLOC) (clk 17))
         \<lparr>i_data := Some ''[binary: 1562 bytes]'', i_size := 20\<rparr>),
      (18, (new_Inode 18 (o755 OR IALLOC) (clk 18))
         \<lparr>i_data := Some ''[binary: 2192 bytes]'', i_size := 20\<rparr>),
      (19, (new_Inode 19 (o644 OR IALLOC) (clk 19))
         \<lparr>i_data := Some [], i_size := 0\<rparr>),
      (20, (new_Inode 20 (o755 OR IALLOC) (clk 20))
         \<lparr>i_data := Some ''[binary: 2468 bytes]'', i_size := 20\<rparr>),
      (21, (new_Inode 21 (o755 OR IALLOC) (clk 21))
         \<lparr>i_data := Some ''[binary: 5386 bytes]'', i_size := 20\<rparr>),
      (22, (new_Inode 22 (o755 OR IALLOC) (clk 22))
         \<lparr>i_data := Some ''[binary: 14310 bytes]'', i_size := 21\<rparr>)]"

definition booted :: "(nat \<Rightarrow> int \<times> int) \<Rightarrow> UnixFilesystem" where
  "booted clk = \<lparr>inodes = map_of (booted_inodes clk), nextInum = 23, rootInum = 1\<rparr>"

text \<open>A clock that always reads \<open>0\<close>, for concrete runs.\<close>

definition clk0 :: "nat \<Rightarrow> int \<times> int" where
  "clk0 n = (0, 0)"

text \<open>
  The states reached by the constructor followed by calls of the exposed operations.
  Of these only \<^verbatim>\<open>write\<close> changes the state (\<^verbatim>\<open>namei\<close>, \<^verbatim>\<open>readdir\<close>, \<^verbatim>\<open>read\<close> and
  \<^verbatim>\<open>stat\<close> return a value and leave it as it is). \<open>reachable fs W\<close> says that \<open>fs\<close> is
  such a state and that \<open>W\<close> is the set of the inodes on which a \<^verbatim>\<open>write\<close> has succeeded
  on the way.
\<close>

inductive reachable :: "UnixFilesystem \<Rightarrow> nat set \<Rightarrow> bool" where
  constructed: "new_UnixFilesystem clk = Inr fs \<Longrightarrow> reachable fs {}"
| written:
    "reachable fs W \<Longrightarrow> write_fs fs path content now = (Inr True, fs') \<Longrightarrow>
     namei fs path = Inr (Some k) \<Longrightarrow> reachable fs' (insert k W)"
| not_written:
    "reachable fs W \<Longrightarrow> write_fs fs path content now = (r, fs') \<Longrightarrow> r \<noteq> Inr True \<Longrightarrow>
     reachable fs' W"

text \<open>
  The shape of the table that the constructor establishes and \<^verbatim>\<open>write\<close> keeps: the root
  is there, every inode is stored under its own number, below \<^verbatim>\<open>nextInum\<close>, and exactly
  the directories have an entry list.
\<close>

definition well_formed :: "UnixFilesystem \<Rightarrow> bool" where
  "well_formed fs \<longleftrightarrow>
     inodes fs (rootInum fs) \<noteq> None \<and>
     (\<forall>k i. inodes fs k = Some i \<longrightarrow>
        i_number i = k \<and> k < nextInum fs \<and> (isDirectory i \<longleftrightarrow> i_entries i \<noteq> None))"

text \<open>Every regular file records the length of its payload as its size.\<close>

definition size_ok :: "UnixFilesystem \<Rightarrow> bool" where
  "size_ok fs \<longleftrightarrow>
     (\<forall>k i. inodes fs k = Some i \<longrightarrow> isRegular i \<longrightarrow>
        (\<exists>d. i_data i = Some d \<and> i_size i = length d))"

section \<open>Properties\<close>

lemmas mode_defs = IALLOC_def IFMT_def IFDIR_def IFCHR_def o755_def o666_def o640_def o644_def

lemmas op_defs = allocInode_def set_entries_def push_entry_def mkdir_def mkdev_def mkfile_def
  set_content_def lookup_def obj_def inodes_get_def andThen_def new_DirectoryEntry_def
  isDirectory_def

subsection \<open>The constructor\<close>

lemma new_UnixFilesystem_booted: "new_UnixFilesystem clk = Inr (booted clk)"
  unfolding new_UnixFilesystem_def initializeFilesystem_def booted_def booted_inodes_def
  apply (simp add: op_defs mode_defs new_Inode_def del: One_nat_def)
  apply (rule ext)
  apply simp
  done

subsection \<open>Lookup in a directory\<close>

lemma lookup_loop_valid: "lookup_loop fs es nm = Some k \<Longrightarrow> inodes fs k \<noteq> None"
  by (induction es) (auto simp: inodes_get_def split: if_splits)

lemma lookup_loop_first:
  "\<forall>x\<in>set pre. name x \<noteq> nm \<Longrightarrow> name e = nm \<Longrightarrow>
   lookup_loop fs (pre @ e # post) nm = inodes_get fs (inum e)"
  by (induction pre) auto

lemma lookup_loop_none: "\<forall>x\<in>set es. name x \<noteq> nm \<Longrightarrow> lookup_loop fs es nm = None"
  by (induction es) auto

lemma lookup_valid: "lookup fs dir nm = Inr (Some k) \<Longrightarrow> inodes fs k \<noteq> None"
  by (auto simp: lookup_def dest: lookup_loop_valid split: option.splits if_splits)

subsection \<open>Splitting a path\<close>

lemma str_split_nonempty: "str_split c s \<noteq> []"
  by (induction s) (auto split: list.splits)

lemma str_split_append: "str_split c (a @ c # b) = str_split c a @ str_split c b"
proof (induction a)
  case Nil
  show ?case by simp
next
  case (Cons x a)
  obtain w ws where "str_split c a = w # ws"
    using str_split_nonempty [of c a] by (cases "str_split c a") auto
  with Cons show ?case by simp
qed

lemma path_parts_slash: "path_parts (a @ CHR ''/'' # b) = path_parts a @ path_parts b"
  by (simp add: path_parts_def str_split_append)

lemma path_parts_Nil: "path_parts [] = []"
  by (simp add: path_parts_def)

subsection \<open>Resolution\<close>

lemma namei_parts:
  "p \<noteq> [] \<Longrightarrow> namei fs (Some p) = namei_loop fs (inodes_get fs (rootInum fs)) (path_parts p)"
  by (cases "p = ''/''") (simp_all add: namei_def path_parts_def Let_def)

lemma namei_loop_valid:
  "namei_loop fs cur parts = Inr (Some k) \<Longrightarrow> obj fs cur \<noteq> None \<or> parts \<noteq> [] \<Longrightarrow>
   inodes fs k \<noteq> None"
proof (induction parts arbitrary: cur)
  case Nil
  then show ?case by (auto simp: obj_def split: option.splits)
next
  case (Cons part parts)
  show ?case
  proof (cases "lookup fs cur part")
    case (Inl e)
    with Cons.prems show ?thesis by (auto split: option.splits if_splits)
  next
    case (Inr r)
    show ?thesis
    proof (cases r)
      case None
      with Inr Cons.prems show ?thesis by (auto split: option.splits if_splits)
    next
      case (Some j)
      with Inr have j: "inodes fs j \<noteq> None" by (auto dest: lookup_valid)
      from Some Inr Cons.prems have "namei_loop fs (Some j) parts = Inr (Some k)"
        by (auto split: option.splits if_splits)
      with j show ?thesis by (intro Cons.IH [of "Some j"]) (auto simp: obj_def)
    qed
  qed
qed

lemma namei_valid: "namei fs path = Inr (Some k) \<Longrightarrow> inodes fs k \<noteq> None"
proof (cases path)
  case None
  assume "namei fs path = Inr (Some k)"
  with None show ?thesis by (simp add: namei_def)
next
  case (Some p)
  assume a: "namei fs path = Inr (Some k)"
  show ?thesis
  proof (cases "p = ''/'' \<or> p = []")
    case True
    with a Some show ?thesis
      by (auto simp: namei_def inodes_get_def Let_def split: if_splits)
  next
    case False
    with a Some have l: "namei_loop fs (inodes_get fs (rootInum fs)) (path_parts p) = Inr (Some k)"
      by (simp add: namei_def Let_def)
    show ?thesis
    proof (cases "path_parts p")
      case Nil
      with l show ?thesis by (auto simp: inodes_get_def split: if_splits)
    next
      case (Cons a list)
      with l show ?thesis by (intro namei_loop_valid [OF l]) simp
    qed
  qed
qed

text \<open>An update that keeps the keys, the modes and the entry lists keeps every resolution.\<close>

lemma lookup_loop_same:
  "(\<And>j. (inodes fs' j = None) = (inodes fs j = None)) \<Longrightarrow>
   lookup_loop fs' es nm = lookup_loop fs es nm"
  by (induction es) (auto simp: inodes_get_def)

lemma namei_loop_same:
  assumes keys: "\<And>j. (inodes fs' j = None) = (inodes fs j = None)"
    and shape: "\<And>j i i'. inodes fs j = Some i \<Longrightarrow> inodes fs' j = Some i' \<Longrightarrow>
                  i_mode i' = i_mode i \<and> i_entries i' = i_entries i"
  shows "namei_loop fs' cur parts = namei_loop fs cur parts"
proof (induction parts arbitrary: cur)
  case Nil
  show ?case by simp
next
  case (Cons part parts)
  have ll: "\<And>es. lookup_loop fs' es part = lookup_loop fs es part"
    using keys by (rule lookup_loop_same)
  show ?case
  proof (cases "obj fs cur")
    case None
    then have "obj fs' cur = None" using keys by (auto simp: obj_def split: option.splits)
    with None show ?thesis by simp
  next
    case (Some i)
    then obtain i' where i': "obj fs' cur = Some i'"
      using keys by (cases "obj fs' cur") (auto simp: obj_def split: option.splits)
    from Some i' have eq: "i_mode i' = i_mode i" "i_entries i' = i_entries i"
      using shape by (auto simp: obj_def split: option.splits)
    then have "lookup fs' cur part = lookup fs cur part"
      using Some i' by (simp add: lookup_def isDirectory_def ll split: option.splits)
    with Some i' eq Cons.IH show ?thesis
      by (simp add: isDirectory_def split: sum.splits option.splits)
  qed
qed

lemma namei_same:
  assumes keys: "\<And>j. (inodes fs' j = None) = (inodes fs j = None)"
    and shape: "\<And>j i i'. inodes fs j = Some i \<Longrightarrow> inodes fs' j = Some i' \<Longrightarrow>
                  i_mode i' = i_mode i \<and> i_entries i' = i_entries i"
    and root: "rootInum fs' = rootInum fs"
  shows "namei fs' path = namei fs path"
proof -
  have "\<And>cur parts. namei_loop fs' cur parts = namei_loop fs cur parts"
    using keys shape by (rule namei_loop_same)
  moreover have "inodes_get fs' (rootInum fs') = inodes_get fs (rootInum fs)"
    using keys root by (simp add: inodes_get_def)
  ultimately show ?thesis by (simp add: namei_def Let_def split: option.splits)
qed

subsection \<open>The bootstrapped table\<close>

lemma booted_inodes_cases:
  assumes "inodes (booted clk) k = Some i"
  shows "(k, i) \<in> set (booted_inodes clk)"
  using assms by (simp add: booted_def map_of_SomeD)

lemma booted_all_wf:
  "list_all (\<lambda>(k, i). i_number i = k \<and> k < 23 \<and> (isDirectory i \<longleftrightarrow> i_entries i \<noteq> None))
     (booted_inodes clk)"
  by (simp add: booted_inodes_def new_Inode_def isDirectory_def mode_defs)

lemma booted_all_size:
  "list_all (\<lambda>(k, i). isRegular i \<longrightarrow> (\<exists>d. i_data i = Some d \<and> i_size i = length d))
     (booted_inodes clk)"
  by (simp add: booted_inodes_def new_Inode_def isRegular_def mode_defs)

lemma booted_all_kinds:
  "list_all (\<lambda>(k, i). (isDirectory i \<longrightarrow> i_data i = None) \<and> (\<not> isDirectory i \<longrightarrow> i_entries i = None)
         \<and> (isCharDevice i \<longrightarrow> i_data i = None))
     (booted_inodes clk)"
  by (simp add: booted_inodes_def new_Inode_def isDirectory_def isCharDevice_def mode_defs)

lemma booted_well_formed: "well_formed (booted clk)"
  unfolding well_formed_def
proof (intro conjI allI impI)
  show "inodes (booted clk) (rootInum (booted clk)) \<noteq> None"
    by (simp add: booted_def booted_inodes_def)
next
  fix k i
  assume "inodes (booted clk) k = Some i"
  then have m: "(k, i) \<in> set (booted_inodes clk)" by (rule booted_inodes_cases)
  with booted_all_wf [of clk]
  have *: "i_number i = k \<and> k < 23 \<and> (isDirectory i \<longleftrightarrow> i_entries i \<noteq> None)"
    unfolding list_all_iff by blast
  from * show "i_number i = k" by simp
  from * show "k < nextInum (booted clk)" by (simp add: booted_def)
  from * show "isDirectory i = (i_entries i \<noteq> None)" by simp
qed

lemma booted_size_ok: "size_ok (booted clk)"
  unfolding size_ok_def
proof (intro allI impI)
  fix k i
  assume "inodes (booted clk) k = Some i" and r: "isRegular i"
  then have "(k, i) \<in> set (booted_inodes clk)" by (simp add: booted_inodes_cases)
  with booted_all_size [of clk] r show "\<exists>d. i_data i = Some d \<and> i_size i = length d"
    unfolding list_all_iff by blast
qed

lemma booted_kinds:
  assumes "inodes (booted clk) k = Some i"
  shows "(isDirectory i \<longrightarrow> i_data i = None) \<and> (\<not> isDirectory i \<longrightarrow> i_entries i = None)
         \<and> (isCharDevice i \<longrightarrow> i_data i = None)"
proof -
  from assms have "(k, i) \<in> set (booted_inodes clk)" by (rule booted_inodes_cases)
  with booted_all_kinds [of clk] show ?thesis
    unfolding list_all_iff by blast
qed

subsection \<open>Writing and the reachable states\<close>

text \<open>What a call of \<^verbatim>\<open>write\<close> does to the state.\<close>

lemma write_fs_cases:
  assumes w: "write_fs fs path content now = (r, fs')"
  obtains (raised) e where "r = Inl e" and "fs' = fs"
  | (refused) "r = Inr False" and "fs' = fs"
  | (stored) k i where "r = Inr True" and "namei fs path = Inr (Some k)"
      and "inodes fs k = Some i" and "\<not> isDirectory i"
      and "fs' = fs\<lparr>inodes := (inodes fs)
                  (k \<mapsto> i\<lparr>i_data := Some content, i_size := length content,
                          i_mtime := now\<rparr>)\<rparr>"
proof (cases "namei fs path")
  case (Inl e)
  with w have "r = Inl e" "fs' = fs" by (simp_all add: write_fs_def)
  then show ?thesis by (rule raised)
next
  case (Inr x)
  show ?thesis
  proof (cases x)
    case None
    with Inr w have "r = Inr False" "fs' = fs" by (simp_all add: write_fs_def)
    then show ?thesis by (rule refused)
  next
    case (Some k)
    show ?thesis
    proof (cases "inodes fs k")
      case None
      with Inr Some w have "r = Inr False" "fs' = fs" by (simp_all add: write_fs_def)
      then show ?thesis by (rule refused)
    next
      case (Some i)
      show ?thesis
      proof (cases "isDirectory i")
        case True
        with Inr \<open>x = Some k\<close> Some w have "r = Inr False" "fs' = fs"
          by (simp_all add: write_fs_def)
        then show ?thesis by (rule refused)
      next
        case False
        with Inr \<open>x = Some k\<close> Some w have "r = Inr True"
          "fs' = fs\<lparr>inodes := (inodes fs)
                  (k \<mapsto> i\<lparr>i_data := Some content, i_size := length content,
                          i_mtime := now\<rparr>)\<rparr>"
          by (simp_all add: write_fs_def)
        with Inr \<open>x = Some k\<close> Some False show ?thesis by (intro stored) simp_all
      qed
    qed
  qed
qed

lemma isDirectory_write [simp]:
  "isDirectory (i\<lparr>i_data := d, i_size := n, i_mtime := t\<rparr>) = isDirectory i"
  by (simp add: isDirectory_def)

lemma isRegular_write [simp]:
  "isRegular (i\<lparr>i_data := d, i_size := n, i_mtime := t\<rparr>) = isRegular i"
  by (simp add: isRegular_def)

lemma isCharDevice_write [simp]:
  "isCharDevice (i\<lparr>i_data := d, i_size := n, i_mtime := t\<rparr>) = isCharDevice i"
  by (simp add: isCharDevice_def)

lemma write_fs_well_formed:
  assumes "well_formed fs" and "write_fs fs path content now = (r, fs')"
  shows "well_formed fs'"
  using assms(2)
proof (cases rule: write_fs_cases)
  case (stored k i)
  with assms(1) show ?thesis
    by (auto simp: well_formed_def)
qed (use assms(1) in simp_all)

lemma write_fs_size_ok:
  assumes "size_ok fs" and "write_fs fs path content now = (r, fs')"
  shows "size_ok fs'"
  using assms(2)
proof (cases rule: write_fs_cases)
  case (stored k i)
  with assms(1) show ?thesis
    by (auto simp: size_ok_def)
qed (use assms(1) in simp_all)

lemma reachable_well_formed: "reachable fs W \<Longrightarrow> well_formed fs"
proof (induction rule: reachable.induct)
  case (constructed clk fs)
  then show ?case using booted_well_formed [of clk] by (simp add: new_UnixFilesystem_booted)
next
  case (written fs W path content now fs' k)
  then show ?case by (blast intro: write_fs_well_formed)
next
  case (not_written fs W path content now r fs')
  then show ?case by (blast intro: write_fs_well_formed)
qed

lemma reachable_size_ok: "reachable fs W \<Longrightarrow> size_ok fs"
proof (induction rule: reachable.induct)
  case (constructed clk fs)
  then show ?case using booted_size_ok [of clk] by (simp add: new_UnixFilesystem_booted)
next
  case (written fs W path content now fs' k)
  then show ?case by (blast intro: write_fs_size_ok)
next
  case (not_written fs W path content now r fs')
  then show ?case by (blast intro: write_fs_size_ok)
qed

lemma write_fs_kinds:
  assumes w: "write_fs fs path content now = (r, fs')"
    and old: "\<And>k i. inodes fs k = Some i \<Longrightarrow>
               (isDirectory i \<longrightarrow> i_data i = None) \<and> (\<not> isDirectory i \<longrightarrow> i_entries i = None)
               \<and> (isCharDevice i \<and> k \<notin> W \<longrightarrow> i_data i = None)"
    and W': "\<And>k. r = Inr True \<Longrightarrow> namei fs path = Inr (Some k) \<Longrightarrow> k \<in> W'" "W \<subseteq> W'"
    and new: "inodes fs' k = Some i"
  shows "(isDirectory i \<longrightarrow> i_data i = None) \<and> (\<not> isDirectory i \<longrightarrow> i_entries i = None)
         \<and> (isCharDevice i \<and> k \<notin> W' \<longrightarrow> i_data i = None)"
  using w
proof (cases rule: write_fs_cases)
  case (raised e)
  with new have "inodes fs k = Some i" by simp
  from old [OF this] W'(2) show ?thesis by blast
next
  case refused
  with new have "inodes fs k = Some i" by simp
  from old [OF this] W'(2) show ?thesis by blast
next
  case (stored k1 i1)
  show ?thesis
  proof (cases "k = k1")
    case True
    with stored(5) new
    have i: "i = i1\<lparr>i_data := Some content, i_size := length content, i_mtime := now\<rparr>"
      by simp
    from old [OF stored(3)] stored(4) have "i_entries i1 = None" by simp
    moreover from W'(1) [OF stored(1) stored(2)] True have "k \<in> W'" by simp
    ultimately show ?thesis using i stored(4) by simp
  next
    case False
    with stored(5) new have "inodes fs k = Some i" by simp
    from old [OF this] W'(2) show ?thesis by blast
  qed
qed

lemma reachable_kinds:
  "reachable fs W \<Longrightarrow> inodes fs k = Some i \<Longrightarrow>
   (isDirectory i \<longrightarrow> i_data i = None) \<and> (\<not> isDirectory i \<longrightarrow> i_entries i = None)
   \<and> (isCharDevice i \<and> k \<notin> W \<longrightarrow> i_data i = None)"
proof (induction arbitrary: k i rule: reachable.induct)
  case (constructed clk fs)
  then have "inodes (booted clk) k = Some i" by (simp add: new_UnixFilesystem_booted)
  then show ?case using booted_kinds by blast
next
  case (written fs W path content now fs' k0)
  show ?case
  proof (rule write_fs_kinds [OF written.hyps(2) _ _ _ written.prems])
    show "W \<subseteq> insert k0 W" by blast
    show "\<And>k. Inr True = Inr True \<Longrightarrow> namei fs path = Inr (Some k) \<Longrightarrow> k \<in> insert k0 W"
      using written.hyps(3) by simp
  qed (rule written.IH)
next
  case (not_written fs W path content now r fs')
  show ?case
  proof (rule write_fs_kinds [OF not_written.hyps(2) _ _ _ not_written.prems])
    show "W \<subseteq> W" by blast
    show "\<And>k. r = Inr True \<Longrightarrow> namei fs path = Inr (Some k) \<Longrightarrow> k \<in> W"
      using not_written.hyps(3) by simp
  qed (rule not_written.IH)
qed

subsection \<open>No operation raises on a well-formed table\<close>

lemma namei_loop_append:
  "namei_loop fs (Some c) (xs @ ys) =
     (case namei_loop fs (Some c) xs of
        Inl e \<Rightarrow> Inl e
      | Inr None \<Rightarrow> Inr None
      | Inr (Some c') \<Rightarrow> namei_loop fs (Some c') ys)"
proof (induction xs arbitrary: c)
  case Nil
  show ?case by simp
next
  case (Cons x xs)
  show ?case
    by (simp add: Cons.IH split: option.splits sum.splits)
qed

lemma namei_loop_total:
  "well_formed fs \<Longrightarrow> inodes fs c \<noteq> None \<Longrightarrow> \<exists>r. namei_loop fs (Some c) parts = Inr r"
proof (induction parts arbitrary: c)
  case Nil
  show ?case by simp
next
  case (Cons part parts)
  from Cons.prems(2) obtain d where d: "inodes fs c = Some d" by blast
  show ?case
  proof (cases "isDirectory d")
    case False
    with d show ?thesis by (simp add: obj_def)
  next
    case True
    with d Cons.prems(1) obtain es where es: "i_entries d = Some es"
      by (auto simp: well_formed_def)
    show ?thesis
    proof (cases "lookup_loop fs es part")
      case None
      with d True es show ?thesis by (simp add: obj_def lookup_def)
    next
      case (Some k)
      then have "inodes fs k \<noteq> None" by (rule lookup_loop_valid)
      with Cons.prems(1) have "\<exists>r. namei_loop fs (Some k) parts = Inr r" by (rule Cons.IH)
      with d True es Some show ?thesis by (simp add: obj_def lookup_def)
    qed
  qed
qed

lemma namei_total:
  assumes "well_formed fs"
  shows "\<exists>r. namei fs path = Inr r"
proof (cases path)
  case None
  then show ?thesis by (simp add: namei_def)
next
  case (Some p)
  from assms have root: "inodes fs (rootInum fs) \<noteq> None" by (simp add: well_formed_def)
  then have "inodes_get fs (rootInum fs) = Some (rootInum fs)" by (simp add: inodes_get_def)
  moreover from assms root have "\<exists>r. namei_loop fs (Some (rootInum fs)) (path_parts p) = Inr r"
    by (rule namei_loop_total)
  ultimately show ?thesis using Some by (auto simp: namei_def Let_def)
qed

lemma readdir_total:
  assumes "well_formed fs"
  shows "\<exists>r. readdir fs path = Inr r"
proof -
  from assms obtain r where r: "namei fs path = Inr r" using namei_total by blast
  show ?thesis
  proof (cases "obj fs r")
    case None
    with r show ?thesis by (simp add: readdir_def)
  next
    case (Some i)
    with assms have "isDirectory i \<Longrightarrow> i_entries i \<noteq> None"
      by (auto simp: well_formed_def obj_def split: option.splits)
    with r Some show ?thesis by (auto simp: readdir_def)
  qed
qed

lemma read_total:
  assumes "well_formed fs"
  shows "\<exists>r. read fs path = Inr r"
proof -
  from assms obtain r where r: "namei fs path = Inr r" using namei_total by blast
  then show ?thesis by (simp add: read_def split: option.splits)
qed

lemma write_fs_total:
  assumes "well_formed fs"
  shows "\<exists>b fs'. write_fs fs path content now = (Inr b, fs')"
proof -
  from assms obtain r where r: "namei fs path = Inr r" using namei_total by blast
  then show ?thesis by (auto simp: write_fs_def split: option.splits)
qed

lemma namei_below:
  assumes wf: "well_formed fs" and q: "q \<noteq> []" and c: "namei fs (Some q) = Inr (Some c)"
  shows "namei fs (Some (q @ ''/'' @ rest)) = namei_loop fs (Some c) (path_parts rest)"
proof -
  from wf have "inodes_get fs (rootInum fs) = Some (rootInum fs)"
    by (simp add: well_formed_def inodes_get_def)
  with q c have "namei_loop fs (Some (rootInum fs)) (path_parts q) = Inr (Some c)"
    by (simp add: namei_parts)
  moreover have "namei fs (Some (q @ ''/'' @ rest)) =
      namei_loop fs (Some (rootInum fs)) (path_parts q @ path_parts rest)"
    using \<open>inodes_get fs (rootInum fs) = Some (rootInum fs)\<close> path_parts_slash [of q rest]
    by (simp add: namei_parts)
  ultimately show ?thesis by (simp add: namei_loop_append)
qed

subsection \<open>Kinds\<close>

lemma regular_not_directory: "isRegular i \<Longrightarrow> \<not> isDirectory i"
  by (simp add: isRegular_def isDirectory_def IFDIR_def)

subsection \<open>The construction helpers\<close>

lemma mkfile_new:
  "\<exists>f. inodes (snd (mkfile clk parent nm content mo fs)) (nextInum fs) = Some f
       \<and> i_data f = Some content \<and> i_size f = length content"
  by (simp add: mkfile_def allocInode_def set_content_def push_entry_def Let_def
      split: option.splits)

lemma isRegular_entries [simp]: "isRegular (i\<lparr>i_entries := es\<rparr>) = isRegular i"
  by (simp add: isRegular_def)

lemma push_entry_size_ok:
  assumes "size_ok fs"
  shows "size_ok (snd (push_entry parent n nm fs))"
  using assms
  by (auto simp: push_entry_def size_ok_def split: option.splits)

lemma mkfile_size_ok:
  assumes "size_ok fs"
  shows "size_ok (snd (mkfile clk parent nm content mo fs))"
proof -
  define m where "m = (case mo of None \<Rightarrow> o644 | Some m' \<Rightarrow> m')"
  define fs2 where "fs2 = set_content (nextInum fs) content (snd (allocInode clk m fs))"
  have "size_ok fs2"
    using assms
    by (auto simp: fs2_def size_ok_def allocInode_def set_content_def Let_def)
  then have "size_ok (snd (push_entry parent (nextInum fs) nm fs2))"
    by (rule push_entry_size_ok)
  moreover have "snd (mkfile clk parent nm content mo fs) =
      snd (push_entry parent (nextInum fs) nm fs2)"
    by (simp add: mkfile_def fs2_def m_def allocInode_def Let_def split: prod.splits sum.splits)
  ultimately show ?thesis by simp
qed


subsection \<open>Concrete runs\<close>

text \<open>The definitions that a run on the bootstrapped filesystem unfolds.\<close>

lemmas run_defs = booted_def booted_inodes_def clk0_def new_Inode_def namei_def path_parts_def
  readdir_def read_def write_fs_def stat_def isRegular_def isCharDevice_def Let_def

lemma chardev_not_directory: "isCharDevice i \<Longrightarrow> \<not> isDirectory i"
  by (simp add: isCharDevice_def isDirectory_def IFDIR_def IFCHR_def)

lemma write_fs_stored:
  assumes "namei fs path = Inr (Some k)" and "inodes fs k = Some i" and "\<not> isDirectory i"
  shows "write_fs fs path content now =
           (Inr True,
            fs\<lparr>inodes := (inodes fs)
                 (k \<mapsto> i\<lparr>i_data := Some content, i_size := length content,
                         i_mtime := now\<rparr>)\<rparr>)"
  using assms by (simp add: write_fs_def)

lemma write_fs_namei:
  assumes "write_fs fs path content now = (r, fs')"
  shows "namei fs' p = namei fs p"
  using assms
proof (cases rule: write_fs_cases)
  case (stored k i)
  show ?thesis
  proof (rule namei_same)
    show "(inodes fs' j = None) = (inodes fs j = None)" for j
      using stored by simp
    show "i_mode i2 = i_mode i1 \<and> i_entries i2 = i_entries i1"
      if "inodes fs j = Some i1" and "inodes fs' j = Some i2" for j i1 i2
      using that stored by (cases "j = k") auto
    show "rootInum fs' = rootInum fs" using stored by simp
  qed
qed simp_all

text \<open>The two character devices \<^verbatim>\<open>/dev/tty\<close> and \<^verbatim>\<open>/dev/null\<close> of the bootstrapped tree.\<close>

lemma dev_null_booted:
  "namei (booted clk0) (Some ''/dev/null'') = Inr (Some 12)
   \<and> (\<exists>d. inodes (booted clk0) 12 = Some d \<and> isCharDevice d \<and> i_data d = None)"
  by (simp add: run_defs op_defs mode_defs)

lemma dev_tty_booted:
  "namei (booted clk0) (Some ''/dev/tty'') = Inr (Some 11)
   \<and> (\<exists>d. inodes (booted clk0) 11 = Some d \<and> isCharDevice d)"
  by (simp add: run_defs op_defs mode_defs)

text \<open>The run \<^verbatim>\<open>write("/dev/null", "x")\<close> on the bootstrapped filesystem.\<close>

lemma write_dev_null:
  obtains fs i i' where
    "write_fs (booted clk0) (Some ''/dev/null'') ''x'' 0 = (Inr True, fs)"
    and "reachable fs {12}"
    and "inodes fs 12 = Some i" and "isCharDevice i" and "i_data i = Some ''x''"
    and "inodes fs 11 = Some i'" and "isCharDevice i'"
    and "namei fs (Some ''/dev/tty'') = Inr (Some 11)"
    and "namei fs (Some ''/dev/null'') = Inr (Some 12)"
proof -
  from dev_null_booted obtain d where
    n: "namei (booted clk0) (Some ''/dev/null'') = Inr (Some 12)"
    and d: "inodes (booted clk0) 12 = Some d" "isCharDevice d"
    by blast
  from dev_tty_booted obtain d' where
    t: "namei (booted clk0) (Some ''/dev/tty'') = Inr (Some 11)"
    and d': "inodes (booted clk0) 11 = Some d'" "isCharDevice d'"
    by blast
  define i where "i = d\<lparr>i_data := Some ''x'', i_size := length ''x'', i_mtime := 0\<rparr>"
  define fs where "fs = (booted clk0)\<lparr>inodes := (inodes (booted clk0))(12 \<mapsto> i)\<rparr>"
  from d have nd: "\<not> isDirectory d" by (simp add: chardev_not_directory)
  from n d(1) nd have w: "write_fs (booted clk0) (Some ''/dev/null'') ''x'' 0 = (Inr True, fs)"
    unfolding fs_def i_def by (rule write_fs_stored)
  have "reachable (booted clk0) {}"
    using new_UnixFilesystem_booted by (rule reachable.constructed)
  then have r: "reachable fs (insert 12 {})"
    using w n by (rule reachable.written)
  have same: "namei fs p = namei (booted clk0) p" for p
    using w by (rule write_fs_namei)
  show ?thesis
  proof (rule that [OF w])
    show "reachable fs {12}" using r by simp
    show "inodes fs 12 = Some i" by (simp add: fs_def)
    show "isCharDevice i" using d by (simp add: i_def)
    show "i_data i = Some ''x''" by (simp add: i_def)
    show "inodes fs 11 = Some d'" using d' by (simp add: fs_def)
    show "isCharDevice d'" by (rule d')
    show "namei fs (Some ''/dev/tty'') = Inr (Some 11)" using t by (simp add: same)
    show "namei fs (Some ''/dev/null'') = Inr (Some 12)" using n by (simp add: same)
  qed
qed

section \<open>The claims\<close>

text \<open>
  Claim C1. \<^verbatim>\<open>namei\<close> splits the path on \<^verbatim>\<open>/\<close> and drops the empty segments, so
  that two non-empty paths with the same segments resolve alike: a trailing slash and a
  doubled slash change nothing. On the bootstrapped filesystem \<^verbatim>\<open>//usr//games\<close>
  resolves to the inode of \<^verbatim>\<open>/usr/games\<close> (number 7), and \<^verbatim>\<open>/\<close> resolves to the root
  inode, there and in every reachable state.
\<close>

theorem namei_slashes_collapse:
  "(p \<noteq> [] \<and> q \<noteq> [] \<and> path_parts p = path_parts q \<longrightarrow>
      namei fs (Some p) = namei fs (Some q))
   \<and> (p \<noteq> [] \<longrightarrow> namei fs (Some (p @ ''/'')) = namei fs (Some p))
   \<and> namei fs (Some (a @ ''//'' @ b)) = namei fs (Some (a @ ''/'' @ b))
   \<and> namei fs (Some ''/'') = Inr (inodes_get fs (rootInum fs))
   \<and> (reachable fs W \<longrightarrow> namei fs (Some ''/'') = Inr (Some (rootInum fs)))
   \<and> (new_UnixFilesystem clk = Inr fs0 \<longrightarrow>
        namei fs0 (Some ''//usr//games'') = namei fs0 (Some ''/usr/games'')
        \<and> namei fs0 (Some ''/usr/games'') = Inr (Some 7)
        \<and> namei fs0 (Some ''/'') = Inr (Some 1))"
proof (intro conjI impI)
  assume "p \<noteq> [] \<and> q \<noteq> [] \<and> path_parts p = path_parts q"
  then show "namei fs (Some p) = namei fs (Some q)" by (simp add: namei_parts)
next
  assume "p \<noteq> []"
  moreover have "path_parts (p @ ''/'') = path_parts p"
    using path_parts_slash [of p "[]"] by (simp add: path_parts_Nil)
  ultimately show "namei fs (Some (p @ ''/'')) = namei fs (Some p)" by (simp add: namei_parts)
next
  have "path_parts (a @ ''//'' @ b) = path_parts (a @ ''/'' @ b)"
    using path_parts_slash [of a "CHR ''/'' # b"] path_parts_slash [of "[]" b]
      path_parts_slash [of a b]
    by (simp add: path_parts_Nil)
  then show "namei fs (Some (a @ ''//'' @ b)) = namei fs (Some (a @ ''/'' @ b))"
    by (simp add: namei_parts)
next
  show "namei fs (Some ''/'') = Inr (inodes_get fs (rootInum fs))"
    by (simp add: namei_def)
next
  assume "reachable fs W"
  then have "well_formed fs" by (rule reachable_well_formed)
  then show "namei fs (Some ''/'') = Inr (Some (rootInum fs))"
    by (simp add: namei_def inodes_get_def well_formed_def)
next
  assume "new_UnixFilesystem clk = Inr fs0"
  then have fs0: "fs0 = booted clk" by (simp add: new_UnixFilesystem_booted)
  show "namei fs0 (Some ''//usr//games'') = namei fs0 (Some ''/usr/games'')"
    by (simp add: namei_parts path_parts_def)
  show "namei fs0 (Some ''/usr/games'') = Inr (Some 7)"
    unfolding fs0 by (simp add: run_defs op_defs mode_defs)
  show "namei fs0 (Some ''/'') = Inr (Some 1)"
    unfolding fs0 by (simp add: run_defs op_defs mode_defs)
qed

theorem namei_slashes_collapse_witness:
  "new_UnixFilesystem clk0 = Inr (booted clk0)
   \<and> path_parts ''/usr//games'' = path_parts ''/usr/games/''
   \<and> namei (booted clk0) (Some ''/usr//games'') = namei (booted clk0) (Some ''/usr/games/'')
   \<and> namei (booted clk0) (Some ''//usr//games'') = Inr (Some 7)
   \<and> namei (booted clk0) (Some ''/'') = Inr (Some 1)"
proof -
  have b: "new_UnixFilesystem clk0 = Inr (booted clk0)" by (rule new_UnixFilesystem_booted)
  have r: "reachable (booted clk0) {}" using b by (rule reachable.constructed)
  have pp: "path_parts ''/usr//games'' = path_parts ''/usr/games/''"
    by (simp add: path_parts_def)
  note t = namei_slashes_collapse
    [of "''/usr//games''" "''/usr/games/''" "booted clk0" "[]" "[]" "{}" clk0 "booted clk0"]
  from t pp have 1: "namei (booted clk0) (Some ''/usr//games'') =
      namei (booted clk0) (Some ''/usr/games/'')"
    by simp
  from t b have 2: "namei (booted clk0) (Some ''//usr//games'') = Inr (Some 7)"
    by simp
  from t b have 3: "namei (booted clk0) (Some ''/'') = Inr (Some 1)"
    by blast
  from b pp 1 2 3 show ?thesis by (intro conjI)
qed

text \<open>
  Claim C2. In every reachable state \<^verbatim>\<open>namei\<close>, \<^verbatim>\<open>stat\<close>, \<^verbatim>\<open>readdir\<close>, \<^verbatim>\<open>read\<close> and
  \<^verbatim>\<open>write\<close> return a value for every path, a string or \<^verbatim>\<open>null\<close>: none of them raises.
  \<^verbatim>\<open>namei\<close> answers \<^verbatim>\<open>null\<close> for \<^verbatim>\<open>null\<close> and for the empty string, for a path that goes
  on below an inode that is not a directory, and for a path whose next segment has no
  entry in the directory reached so far. Where \<^verbatim>\<open>namei\<close> answers \<^verbatim>\<open>null\<close>, so do
  \<^verbatim>\<open>stat\<close>, \<^verbatim>\<open>readdir\<close> and \<^verbatim>\<open>read\<close>, and \<^verbatim>\<open>write\<close> answers \<^verbatim>\<open>false\<close>. \<^verbatim>\<open>readdir\<close> of an
  inode that is not a directory and \<^verbatim>\<open>read\<close> of a directory answer \<^verbatim>\<open>null\<close>, and
  \<^verbatim>\<open>write\<close> to a directory answers \<^verbatim>\<open>false\<close>.
\<close>

theorem never_raises:
  assumes "reachable fs W"
  shows "(\<exists>r. namei fs path = Inr r) \<and> (\<exists>r. stat fs path = Inr r)
    \<and> (\<exists>r. readdir fs path = Inr r) \<and> (\<exists>r. read fs path = Inr r)
    \<and> (\<exists>b fs'. write_fs fs path content now = (Inr b, fs'))
    \<and> namei fs None = Inr None \<and> namei fs (Some []) = Inr None
    \<and> (q \<noteq> [] \<and> namei fs (Some q) = Inr (Some c) \<and> inodes fs c = Some d
         \<and> path_parts rest = seg # segs \<and> \<not> isDirectory d \<longrightarrow>
       namei fs (Some (q @ ''/'' @ rest)) = Inr None)
    \<and> (q \<noteq> [] \<and> namei fs (Some q) = Inr (Some c) \<and> inodes fs c = Some d
         \<and> path_parts rest = seg # segs \<and> i_entries d = Some es
         \<and> (\<forall>e\<in>set es. name e \<noteq> seg) \<longrightarrow>
       namei fs (Some (q @ ''/'' @ rest)) = Inr None)
    \<and> (namei fs path = Inr None \<longrightarrow>
         stat fs path = Inr None \<and> readdir fs path = Inr None \<and> read fs path = Inr None
         \<and> write_fs fs path content now = (Inr False, fs))
    \<and> (namei fs path = Inr (Some k) \<and> inodes fs k = Some i \<and> \<not> isDirectory i \<longrightarrow>
         readdir fs path = Inr None)
    \<and> (namei fs path = Inr (Some k) \<and> inodes fs k = Some i \<and> isDirectory i \<longrightarrow>
         read fs path = Inr None \<and> write_fs fs path content now = (Inr False, fs))"
proof -
  from assms have wf: "well_formed fs" by (rule reachable_well_formed)
  have 1: "\<exists>r. namei fs path = Inr r" using wf by (rule namei_total)
  then have 2: "\<exists>r. stat fs path = Inr r" by (simp add: stat_def)
  have 3: "\<exists>r. readdir fs path = Inr r" using wf by (rule readdir_total)
  have 4: "\<exists>r. read fs path = Inr r" using wf by (rule read_total)
  have 5: "\<exists>b fs'. write_fs fs path content now = (Inr b, fs')" using wf by (rule write_fs_total)
  have 6: "namei fs None = Inr None" "namei fs (Some []) = Inr None"
    by (simp_all add: namei_def)
  have 7: "namei fs (Some (q @ ''/'' @ rest)) = Inr None"
    if "q \<noteq> [] \<and> namei fs (Some q) = Inr (Some c) \<and> inodes fs c = Some d
         \<and> path_parts rest = seg # segs \<and> \<not> isDirectory d"
    using that namei_below [OF wf, of q c rest] by (simp add: obj_def)
  have 8: "namei fs (Some (q @ ''/'' @ rest)) = Inr None"
    if h: "q \<noteq> [] \<and> namei fs (Some q) = Inr (Some c) \<and> inodes fs c = Some d
         \<and> path_parts rest = seg # segs \<and> i_entries d = Some es
         \<and> (\<forall>e\<in>set es. name e \<noteq> seg)"
  proof -
    from h have "lookup_loop fs es seg = None" by (simp add: lookup_loop_none)
    with h namei_below [OF wf, of q c rest] show ?thesis
      by (simp add: obj_def lookup_def)
  qed
  have 9: "stat fs path = Inr None \<and> readdir fs path = Inr None \<and> read fs path = Inr None
         \<and> write_fs fs path content now = (Inr False, fs)"
    if "namei fs path = Inr None"
    using that by (simp add: stat_def readdir_def read_def write_fs_def obj_def)
  have 10: "readdir fs path = Inr None"
    if "namei fs path = Inr (Some k) \<and> inodes fs k = Some i \<and> \<not> isDirectory i"
    using that by (simp add: readdir_def obj_def)
  have 11: "read fs path = Inr None \<and> write_fs fs path content now = (Inr False, fs)"
    if "namei fs path = Inr (Some k) \<and> inodes fs k = Some i \<and> isDirectory i"
    using that by (simp add: read_def write_fs_def obj_def)
  from 1 2 3 4 5 6 7 8 9 10 11 show ?thesis by blast
qed

theorem never_raises_witness:
  "reachable (booted clk0) {}
   \<and> namei (booted clk0) (Some ''/etc/passwd'') = Inr (Some 14)
   \<and> namei (booted clk0) (Some (''/etc/passwd'' @ ''/'' @ ''x'')) = Inr None
   \<and> namei (booted clk0) (Some ''/usr'') = Inr (Some 5)
   \<and> namei (booted clk0) (Some (''/usr'' @ ''/'' @ ''nope/lib'')) = Inr None
   \<and> readdir (booted clk0) (Some (''/usr'' @ ''/'' @ ''nope/lib'')) = Inr None
   \<and> read (booted clk0) (Some (''/usr'' @ ''/'' @ ''nope/lib'')) = Inr None
   \<and> write_fs (booted clk0) (Some (''/usr'' @ ''/'' @ ''nope/lib'')) ''data'' 7
       = (Inr False, booted clk0)
   \<and> readdir (booted clk0) (Some ''/etc/passwd'') = Inr None
   \<and> read (booted clk0) (Some ''/usr'') = Inr None"
proof -
  have r: "reachable (booted clk0) {}"
    using new_UnixFilesystem_booted by (rule reachable.constructed)
  have p: "namei (booted clk0) (Some ''/etc/passwd'') = Inr (Some 14)"
    by (simp add: run_defs op_defs mode_defs)
  have u: "namei (booted clk0) (Some ''/usr'') = Inr (Some 5)"
    by (simp add: run_defs op_defs mode_defs)
  have "\<exists>d. inodes (booted clk0) 14 = Some d \<and> \<not> isDirectory d"
    by (simp add: run_defs op_defs mode_defs)
  then obtain d where d: "inodes (booted clk0) 14 = Some d" "\<not> isDirectory d" by blast
  have "\<exists>d. inodes (booted clk0) 5 = Some d \<and> i_entries d = Some
     [\<lparr>inum = 5, name = ''.''\<rparr>, \<lparr>inum = 1, name = ''..''\<rparr>, \<lparr>inum = 7, name = ''games''\<rparr>,
      \<lparr>inum = 8, name = ''lib''\<rparr>, \<lparr>inum = 9, name = ''bin''\<rparr>, \<lparr>inum = 10, name = ''sys''\<rparr>]"
    by (simp add: run_defs op_defs mode_defs)
  then obtain d' where d': "inodes (booted clk0) 5 = Some d'" "i_entries d' = Some
     [\<lparr>inum = 5, name = ''.''\<rparr>, \<lparr>inum = 1, name = ''..''\<rparr>, \<lparr>inum = 7, name = ''games''\<rparr>,
      \<lparr>inum = 8, name = ''lib''\<rparr>, \<lparr>inum = 9, name = ''bin''\<rparr>, \<lparr>inum = 10, name = ''sys''\<rparr>]"
    by blast
  have x: "path_parts ''x'' = ''x'' # []" "path_parts ''nope/lib'' = ''nope'' # [''lib'']"
    by (simp_all add: path_parts_def)
  note t1 = never_raises [OF r, of "Some (''/usr'' @ ''/'' @ ''nope/lib'')" "''data''" 7
      "''/etc/passwd''" 14 d "''x''" "''x''" "[]"]
  note t2 = never_raises [OF r, of "Some (''/usr'' @ ''/'' @ ''nope/lib'')" "''data''" 7
      "''/usr''" 5 d' "''nope/lib''" "''nope''" "[''lib'']"
      "[\<lparr>inum = 5, name = ''.''\<rparr>, \<lparr>inum = 1, name = ''..''\<rparr>, \<lparr>inum = 7, name = ''games''\<rparr>,
        \<lparr>inum = 8, name = ''lib''\<rparr>, \<lparr>inum = 9, name = ''bin''\<rparr>, \<lparr>inum = 10, name = ''sys''\<rparr>]"]
  from t1 p d x have a: "namei (booted clk0) (Some (''/etc/passwd'' @ ''/'' @ ''x'')) = Inr None"
    by simp
  from t2 u d' x have b: "namei (booted clk0) (Some (''/usr'' @ ''/'' @ ''nope/lib'')) = Inr None"
    by simp
  from t2 b have c: "readdir (booted clk0) (Some (''/usr'' @ ''/'' @ ''nope/lib'')) = Inr None"
    "read (booted clk0) (Some (''/usr'' @ ''/'' @ ''nope/lib'')) = Inr None"
    "write_fs (booted clk0) (Some (''/usr'' @ ''/'' @ ''nope/lib'')) ''data'' 7
       = (Inr False, booted clk0)"
    by blast+
  have "isDirectory d'"
    using reachable_well_formed [OF r] d' by (simp add: well_formed_def)
  with never_raises [OF r, of "Some ''/usr''" "''data''" 7 _ _ _ _ _ _ _ 5 d'] u d'
  have e: "read (booted clk0) (Some ''/usr'') = Inr None"
    by blast
  from never_raises [OF r, of "Some ''/etc/passwd''" "''data''" 7 _ _ _ _ _ _ _ 14 d] p d
  have f: "readdir (booted clk0) (Some ''/etc/passwd'') = Inr None"
    by blast
  from r p a u b c f e show ?thesis by (intro conjI)
qed

text \<open>
  Claim C3. In a directory, \<^verbatim>\<open>_lookup\<close> compares names by equality and answers with the
  inode of the first entry that carries the name, whatever follows it in the entry list,
  another entry of the same name included.
\<close>

theorem lookup_first_match:
  assumes "obj fs dir = Some d" and "isDirectory d"
    and "i_entries d = Some (pre @ e # post)"
    and "\<forall>x\<in>set pre. name x \<noteq> nm" and "name e = nm"
  shows "lookup fs dir nm = Inr (inodes_get fs (inum e))"
  using assms by (simp add: lookup_def lookup_loop_first)

theorem lookup_first_match_witness:
  "fst (mkdir clk0 (Some 1) ''usr'' (booted clk0)) = Inr 23
   \<and> map_option i_entries (obj (snd (mkdir clk0 (Some 1) ''usr'' (booted clk0))) (Some 1)) =
       Some (Some
        [\<lparr>inum = 1, name = ''.''\<rparr>, \<lparr>inum = 1, name = ''..''\<rparr>, \<lparr>inum = 2, name = ''bin''\<rparr>,
         \<lparr>inum = 3, name = ''dev''\<rparr>, \<lparr>inum = 4, name = ''etc''\<rparr>, \<lparr>inum = 5, name = ''usr''\<rparr>,
         \<lparr>inum = 6, name = ''tmp''\<rparr>, \<lparr>inum = 23, name = ''usr''\<rparr>])
   \<and> lookup (snd (mkdir clk0 (Some 1) ''usr'' (booted clk0))) (Some 1) ''usr'' = Inr (Some 5)"
proof -
  define fs where "fs = snd (mkdir clk0 (Some 1) ''usr'' (booted clk0))"
  have r: "fst (mkdir clk0 (Some 1) ''usr'' (booted clk0)) = Inr 23"
    by (simp add: run_defs op_defs mode_defs)
  have "\<exists>d. obj fs (Some 1) = Some d \<and> isDirectory d \<and>
          i_entries d = Some
           ([\<lparr>inum = 1, name = ''.''\<rparr>, \<lparr>inum = 1, name = ''..''\<rparr>, \<lparr>inum = 2, name = ''bin''\<rparr>,
             \<lparr>inum = 3, name = ''dev''\<rparr>, \<lparr>inum = 4, name = ''etc''\<rparr>]
            @ \<lparr>inum = 5, name = ''usr''\<rparr>
            # [\<lparr>inum = 6, name = ''tmp''\<rparr>, \<lparr>inum = 23, name = ''usr''\<rparr>])"
    unfolding fs_def by (simp add: run_defs op_defs mode_defs)
  then obtain d where d: "obj fs (Some 1) = Some d" "isDirectory d"
    "i_entries d = Some
           ([\<lparr>inum = 1, name = ''.''\<rparr>, \<lparr>inum = 1, name = ''..''\<rparr>, \<lparr>inum = 2, name = ''bin''\<rparr>,
             \<lparr>inum = 3, name = ''dev''\<rparr>, \<lparr>inum = 4, name = ''etc''\<rparr>]
            @ \<lparr>inum = 5, name = ''usr''\<rparr>
            # [\<lparr>inum = 6, name = ''tmp''\<rparr>, \<lparr>inum = 23, name = ''usr''\<rparr>])"
    by blast
  have "lookup fs (Some 1) ''usr'' = Inr (inodes_get fs (inum \<lparr>inum = 5, name = ''usr''\<rparr>))"
    by (rule lookup_first_match [OF d]) simp_all
  moreover have "inodes_get fs 5 = Some 5"
    unfolding fs_def by (simp add: run_defs op_defs mode_defs)
  ultimately have "lookup fs (Some 1) ''usr'' = Inr (Some 5)" by simp
  with r d(1) d(3) show ?thesis unfolding fs_def by simp
qed

text \<open>
  Claim C4. When the path resolves to a regular file, \<^verbatim>\<open>write\<close> returns \<^verbatim>\<open>true\<close>; the
  inode then holds the new payload, the length of the payload as its size and the clock
  reading as its modify time; the path still resolves to that inode, and \<^verbatim>\<open>read\<close> of
  the path returns the payload that was written.
\<close>

theorem write_then_read:
  assumes "namei fs (Some P) = Inr (Some k)" and "inodes fs k = Some i" and "isRegular i"
  shows "\<exists>fs'. write_fs fs (Some P) D now = (Inr True, fs')
           \<and> inodes fs' k = Some (i\<lparr>i_data := Some D, i_size := length D, i_mtime := now\<rparr>)
           \<and> namei fs' (Some P) = Inr (Some k)
           \<and> read fs' (Some P) = Inr (Some D)"
proof -
  define fs' where
    "fs' = fs\<lparr>inodes := (inodes fs)(k \<mapsto> i\<lparr>i_data := Some D, i_size := length D, i_mtime := now\<rparr>)\<rparr>"
  from assms have nd: "\<not> isDirectory i" by (simp add: regular_not_directory)
  with assms have w: "write_fs fs (Some P) D now = (Inr True, fs')"
    by (simp add: write_fs_def fs'_def)
  have k: "inodes fs' k = Some (i\<lparr>i_data := Some D, i_size := length D, i_mtime := now\<rparr>)"
    by (simp add: fs'_def)
  have "namei fs' (Some P) = namei fs (Some P)"
  proof (rule namei_same)
    show "(inodes fs' j = None) = (inodes fs j = None)" for j
      using assms(2) by (simp add: fs'_def)
    show "i_mode i2 = i_mode i1 \<and> i_entries i2 = i_entries i1"
      if "inodes fs j = Some i1" and "inodes fs' j = Some i2" for j i1 i2
      using that assms(2) by (cases "j = k") (auto simp: fs'_def)
    show "rootInum fs' = rootInum fs" by (simp add: fs'_def)
  qed
  with assms(1) have n: "namei fs' (Some P) = Inr (Some k)" by simp
  with k nd have "read fs' (Some P) = Inr (Some D)"
    by (simp add: read_def obj_def)
  with w k n show ?thesis by blast
qed

theorem write_then_read_witness:
  "namei (booted clk0) (Some ''/usr/games/ttt.k'') = Inr (Some 19)
   \<and> map_option isRegular (inodes (booted clk0) 19) = Some True
   \<and> fst (write_fs (booted clk0) (Some ''/usr/games/ttt.k'') ''0 1 2'' 1973) = Inr True
   \<and> read (snd (write_fs (booted clk0) (Some ''/usr/games/ttt.k'') ''0 1 2'' 1973))
        (Some ''/usr/games/ttt.k'') = Inr (Some ''0 1 2'')
   \<and> map_option i_size
        (inodes (snd (write_fs (booted clk0) (Some ''/usr/games/ttt.k'') ''0 1 2'' 1973)) 19)
        = Some 5
   \<and> map_option i_mtime
        (inodes (snd (write_fs (booted clk0) (Some ''/usr/games/ttt.k'') ''0 1 2'' 1973)) 19)
        = Some 1973"
proof -
  have n: "namei (booted clk0) (Some ''/usr/games/ttt.k'') = Inr (Some 19)"
    by (simp add: run_defs op_defs mode_defs)
  have "\<exists>i. inodes (booted clk0) 19 = Some i \<and> isRegular i"
    by (simp add: run_defs op_defs mode_defs)
  then obtain i where i: "inodes (booted clk0) 19 = Some i" "isRegular i" by blast
  from write_then_read [OF n i, of "''0 1 2''" 1973] i show ?thesis
    using n by auto
qed

text \<open>
  Claim C5. When the path does not resolve, or resolves to a directory, \<^verbatim>\<open>write\<close>
  returns \<^verbatim>\<open>false\<close> and the state it leaves is the state it was called in: the table,
  with the payload, the size and the modify time of every inode, and \<^verbatim>\<open>nextInum\<close>.
\<close>

theorem write_refused:
  assumes "namei fs path = Inr None
           \<or> (\<exists>k i. namei fs path = Inr (Some k) \<and> inodes fs k = Some i \<and> isDirectory i)"
  shows "write_fs fs path content now = (Inr False, fs)"
  using assms by (auto simp: write_fs_def)

theorem write_refused_witness:
  "namei (booted clk0) (Some ''/usr/games/zork'') = Inr None
   \<and> write_fs (booted clk0) (Some ''/usr/games/zork'') ''x'' 5 = (Inr False, booted clk0)
   \<and> namei (booted clk0) (Some ''/usr/games'') = Inr (Some 7)
   \<and> map_option isDirectory (inodes (booted clk0) 7) = Some True
   \<and> write_fs (booted clk0) (Some ''/usr/games'') ''x'' 5 = (Inr False, booted clk0)
   \<and> nextInum (snd (write_fs (booted clk0) (Some ''/usr/games/zork'') ''x'' 5)) = 23"
proof -
  have a: "namei (booted clk0) (Some ''/usr/games/zork'') = Inr None"
    by (simp add: run_defs op_defs mode_defs)
  have b: "namei (booted clk0) (Some ''/usr/games'') = Inr (Some 7)"
    by (simp add: run_defs op_defs mode_defs)
  have "\<exists>i. inodes (booted clk0) 7 = Some i \<and> isDirectory i"
    by (simp add: run_defs op_defs mode_defs)
  then obtain i where i: "inodes (booted clk0) 7 = Some i" "isDirectory i" by blast
  have 1: "write_fs (booted clk0) (Some ''/usr/games/zork'') ''x'' 5 = (Inr False, booted clk0)"
    by (rule write_refused) (simp add: a)
  have 2: "write_fs (booted clk0) (Some ''/usr/games'') ''x'' 5 = (Inr False, booted clk0)"
    by (rule write_refused) (use b i in blast)
  have 3: "nextInum (booted clk0) = 23" by (simp add: booted_def)
  from a b i 1 2 3 show ?thesis by simp
qed

text \<open>
  Claim C6, as amended. On the bootstrapped filesystem \<^verbatim>\<open>readdir("/dev")\<close> returns five
  entries, in this order: \<^verbatim>\<open>.\<close> and \<^verbatim>\<open>..\<close>, which \<^verbatim>\<open>_mkdir\<close> puts into every directory,
  and then the three character devices \<^verbatim>\<open>tty\<close>, \<^verbatim>\<open>null\<close> and \<^verbatim>\<open>mem\<close>.
\<close>

theorem readdir_dev:
  assumes "new_UnixFilesystem clk = Inr fs"
  shows "readdir fs (Some ''/dev'') =
           Inr (Some [(''.'', Some 3), (''..'', Some 1), (''tty'', Some 11),
                      (''null'', Some 12), (''mem'', Some 13)])
         \<and> map_option isCharDevice (inodes fs 11) = Some True
         \<and> map_option isCharDevice (inodes fs 12) = Some True
         \<and> map_option isCharDevice (inodes fs 13) = Some True"
proof -
  from assms have "fs = booted clk" by (simp add: new_UnixFilesystem_booted)
  then show ?thesis by (simp add: run_defs op_defs mode_defs)
qed

theorem readdir_dev_witness:
  "new_UnixFilesystem clk0 = Inr (booted clk0)
   \<and> readdir (booted clk0) (Some ''/dev'') =
           Inr (Some [(''.'', Some 3), (''..'', Some 1), (''tty'', Some 11),
                      (''null'', Some 12), (''mem'', Some 13)])"
  using readdir_dev [OF new_UnixFilesystem_booted [of clk0]] new_UnixFilesystem_booted [of clk0]
  by blast

text \<open>
  The claim C6 as it is stated, three entries with the names \<^verbatim>\<open>tty\<close>, \<^verbatim>\<open>null\<close> and
  \<^verbatim>\<open>mem\<close>, does not hold of the bootstrapped filesystem.
\<close>

theorem readdir_dev_counterexample:
  "\<not> (\<forall>clk fs. new_UnixFilesystem clk = Inr fs \<longrightarrow>
        (\<exists>es. readdir fs (Some ''/dev'') = Inr (Some es) \<and> length es = 3
              \<and> set (map fst es) = {''tty'', ''null'', ''mem''}))"
proof
  assume "\<forall>clk fs. new_UnixFilesystem clk = Inr fs \<longrightarrow>
        (\<exists>es. readdir fs (Some ''/dev'') = Inr (Some es) \<and> length es = 3
              \<and> set (map fst es) = {''tty'', ''null'', ''mem''})"
  then have "\<exists>es. readdir (booted clk0) (Some ''/dev'') = Inr (Some es) \<and> length es = 3"
    using new_UnixFilesystem_booted [of clk0] by blast
  moreover have "readdir (booted clk0) (Some ''/dev'') =
      Inr (Some [(''.'', Some 3), (''..'', Some 1), (''tty'', Some 11), (''null'', Some 12),
                 (''mem'', Some 13)])"
    by (simp add: run_defs op_defs mode_defs)
  ultimately show False by auto
qed

text \<open>
  Claim C7, as amended. In every reachable state a directory holds no payload, an inode
  that is not a directory holds no entries, and a character device holds no entries and,
  as long as no \<^verbatim>\<open>write\<close> on it has succeeded, no payload: \<^verbatim>\<open>write\<close> stores the payload
  in every inode that is not a directory, a character device included.
\<close>

theorem kinds_exclusive:
  assumes "reachable fs W" and "inodes fs k = Some i"
  shows "(isDirectory i \<longrightarrow> i_data i = None) \<and> (\<not> isDirectory i \<longrightarrow> i_entries i = None)
         \<and> (isCharDevice i \<longrightarrow> i_entries i = None \<and> (k \<notin> W \<longrightarrow> i_data i = None))"
  using reachable_kinds [OF assms] chardev_not_directory [of i] by blast

theorem kinds_exclusive_witness:
  "fst (write_fs (booted clk0) (Some ''/dev/null'') ''x'' 0) = Inr True
   \<and> reachable (snd (write_fs (booted clk0) (Some ''/dev/null'') ''x'' 0)) {12}
   \<and> map_option isCharDevice
       (inodes (snd (write_fs (booted clk0) (Some ''/dev/null'') ''x'' 0)) 11) = Some True
   \<and> map_option i_data
       (inodes (snd (write_fs (booted clk0) (Some ''/dev/null'') ''x'' 0)) 11) = Some None
   \<and> map_option i_entries
       (inodes (snd (write_fs (booted clk0) (Some ''/dev/null'') ''x'' 0)) 11) = Some None"
proof -
  from write_dev_null obtain fs i where
    w: "write_fs (booted clk0) (Some ''/dev/null'') ''x'' 0 = (Inr True, fs)"
    and r: "reachable fs {12}"
    and i: "inodes fs 11 = Some i" "isCharDevice i"
    by blast
  from kinds_exclusive [OF r i(1)] i(2) have "i_entries i = None" "i_data i = None"
    by simp_all
  with r i w show ?thesis by simp
qed

text \<open>
  The claim C7 as it is stated, that a character device never holds a payload, fails
  after \<^verbatim>\<open>write("/dev/null", "x")\<close> on the bootstrapped filesystem.
\<close>

theorem kinds_exclusive_counterexample:
  "\<not> (\<forall>fs W k i. reachable fs W \<longrightarrow> inodes fs k = Some i \<longrightarrow>
        (isDirectory i \<longrightarrow> i_data i = None) \<and> (\<not> isDirectory i \<longrightarrow> i_entries i = None)
        \<and> (isCharDevice i \<longrightarrow> i_data i = None \<and> i_entries i = None))"
proof
  assume a: "\<forall>fs W k i. reachable fs W \<longrightarrow> inodes fs k = Some i \<longrightarrow>
        (isDirectory i \<longrightarrow> i_data i = None) \<and> (\<not> isDirectory i \<longrightarrow> i_entries i = None)
        \<and> (isCharDevice i \<longrightarrow> i_data i = None \<and> i_entries i = None)"
  from write_dev_null obtain fs i where "reachable fs {12}" and "inodes fs 12 = Some i"
    and i: "isCharDevice i" "i_data i = Some ''x''"
    by blast
  with a have "isCharDevice i \<longrightarrow> i_data i = None \<and> i_entries i = None"
    by blast
  with i show False by simp
qed

text \<open>
  Claim C8. In every reachable state the size of a regular file is the length of its
  payload. \<^verbatim>\<open>_mkfile\<close> establishes this for the inode it allocates, and \<^verbatim>\<open>_mkfile\<close> and
  \<^verbatim>\<open>write\<close> keep it for the whole table, whatever they return.
\<close>

theorem size_is_payload_length:
  "(reachable fs W \<and> inodes fs k = Some i \<and> isRegular i \<longrightarrow>
      (\<exists>d. i_data i = Some d \<and> i_size i = length d))
   \<and> (\<exists>f. inodes (snd (mkfile clk parent nm content mo fs)) (nextInum fs) = Some f
         \<and> i_data f = Some content \<and> i_size f = length content)
   \<and> (size_ok fs \<longrightarrow> size_ok (snd (mkfile clk parent nm content mo fs)))
   \<and> (size_ok fs \<longrightarrow> size_ok (snd (write_fs fs path content now)))"
proof (intro conjI impI)
  assume a: "reachable fs W \<and> inodes fs k = Some i \<and> isRegular i"
  then have "size_ok fs" by (blast intro: reachable_size_ok)
  with a show "\<exists>d. i_data i = Some d \<and> i_size i = length d"
    unfolding size_ok_def by blast
next
  show "\<exists>f. inodes (snd (mkfile clk parent nm content mo fs)) (nextInum fs) = Some f
         \<and> i_data f = Some content \<and> i_size f = length content"
    by (rule mkfile_new)
next
  assume "size_ok fs"
  then show "size_ok (snd (mkfile clk parent nm content mo fs))" by (rule mkfile_size_ok)
next
  assume "size_ok fs"
  then show "size_ok (snd (write_fs fs path content now))"
    by (rule write_fs_size_ok) (rule surjective_pairing)
qed

theorem size_is_payload_length_witness:
  "reachable (booted clk0) {}
   \<and> map_option isRegular (inodes (booted clk0) 15) = Some True
   \<and> map_option i_data (inodes (booted clk0) 15) =
       Some (Some ''Unix Fourth Edition\<newline>Bell Telephone Laboratories\<newline>1973\<newline>'')
   \<and> map_option i_size (inodes (booted clk0) 15) = Some 53
   \<and> size_ok (booted clk0)
   \<and> size_ok (snd (mkfile clk0 (Some 6) ''x'' ''abc'' (Some o644) (booted clk0)))
   \<and> size_ok (snd (write_fs (booted clk0) (Some ''/etc/motd'') ''hello'' 9))"
proof -
  have r: "reachable (booted clk0) {}"
    using new_UnixFilesystem_booted by (rule reachable.constructed)
  have "\<exists>i. inodes (booted clk0) 15 = Some i \<and> isRegular i
           \<and> i_data i = Some ''Unix Fourth Edition\<newline>Bell Telephone Laboratories\<newline>1973\<newline>''"
    by (simp add: run_defs op_defs mode_defs)
  then obtain i where i: "inodes (booted clk0) 15 = Some i" "isRegular i"
    "i_data i = Some ''Unix Fourth Edition\<newline>Bell Telephone Laboratories\<newline>1973\<newline>''"
    by blast
  note t = size_is_payload_length [of "booted clk0" "{}" _ _ clk0 "Some 6" "''x''" _
      "Some o644" "Some ''/etc/motd''" 9]
  from t [of 15 i "''abc''"] r i have s: "i_size i = 53" by auto
  have ok: "size_ok (booted clk0)"
    unfolding size_ok_def
  proof (intro allI impI)
    fix k j
    assume "inodes (booted clk0) k = Some j" and "isRegular j"
    with t [of k j "''abc''"] r show "\<exists>d. i_data j = Some d \<and> i_size j = length d"
      by blast
  qed
  from t [of 15 i "''abc''"] ok
  have m: "size_ok (snd (mkfile clk0 (Some 6) ''x'' ''abc'' (Some o644) (booted clk0)))"
    by blast
  from t [of 15 i "''hello''"] ok
  have w: "size_ok (snd (write_fs (booted clk0) (Some ''/etc/motd'') ''hello'' 9))"
    by blast
  from r i s ok m w show ?thesis by simp
qed





text \<open>
  Claim C10. In a reachable state, when the path resolves to a character device on which
  no \<^verbatim>\<open>write\<close> has succeeded, \<^verbatim>\<open>read\<close> returns \<^verbatim>\<open>null\<close>: the path resolves and the
  inode is not a directory, but it has no payload.
\<close>

theorem read_chardev_unwritten:
  assumes "reachable fs W" and "namei fs path = Inr (Some k)" and "inodes fs k = Some i"
    and "isCharDevice i" and "k \<notin> W"
  shows "read fs path = Inr None"
proof -
  from reachable_kinds [OF assms(1,3)] assms(4,5) have "i_data i = None" by simp
  moreover from assms(4) have "\<not> isDirectory i" by (rule chardev_not_directory)
  ultimately show ?thesis using assms(2,3) by (simp add: read_def obj_def)
qed

theorem read_chardev_unwritten_witness:
  "reachable (snd (write_fs (booted clk0) (Some ''/dev/null'') ''x'' 0)) {12}
   \<and> namei (snd (write_fs (booted clk0) (Some ''/dev/null'') ''x'' 0)) (Some ''/dev/tty'')
       = Inr (Some 11)
   \<and> read (snd (write_fs (booted clk0) (Some ''/dev/null'') ''x'' 0)) (Some ''/dev/tty'')
       = Inr None
   \<and> read (snd (write_fs (booted clk0) (Some ''/dev/null'') ''x'' 0)) (Some ''/dev/null'')
       = Inr (Some ''x'')"
proof -
  from write_dev_null obtain fs j i where
    w: "write_fs (booted clk0) (Some ''/dev/null'') ''x'' 0 = (Inr True, fs)"
    and r: "reachable fs {12}"
    and j: "inodes fs 12 = Some j" "isCharDevice j" "i_data j = Some ''x''"
    and i: "inodes fs 11 = Some i" "isCharDevice i"
    and t: "namei fs (Some ''/dev/tty'') = Inr (Some 11)"
    and n: "namei fs (Some ''/dev/null'') = Inr (Some 12)"
    by blast
  have 1: "read fs (Some ''/dev/tty'') = Inr None"
    using r t i by (rule read_chardev_unwritten) simp
  have 2: "read fs (Some ''/dev/null'') = Inr (Some ''x'')"
    using n j chardev_not_directory [of j] by (simp add: read_def obj_def)
  from r t 1 2 w show ?thesis by simp
qed

end
